theory Spec2Isabelle
  imports Main "HOL-Library.Multiset" "HOL-Library.Char_ord" "HOL-Library.List_Lexorder"
    "HOL-Library.AList"
begin

section \<open>Data model of \<^verbatim>\<open>convert_celeba.py\<close>\<close>

text \<open>
  The joined metadata table \<^verbatim>\<open>specs\<close> is the data frame that
  \<^verbatim>\<open>load_celeba_specs\<close> returns: its index holds the file names of the
  metadata files, its first column is \<^verbatim>\<open>partition\<close> (taken from the left
  table of the join, an integer in every row), and the other columns are the attribute
  columns of the right table. A cell of an attribute column is an integer, or missing
  (pandas' NaN) where the left join found no attribute row for the index value.
\<close>

type_synonym cell = "int option"

record specs_row =
  row_index :: string
  row_partition :: int
  row_attrs :: "cell list"

record specs =
  attr_names :: "string list"
  rows :: "specs_row list"

text \<open>
  The exceptions that end a run, one constructor per cause: the RuntimeError of
  \<^verbatim>\<open>main\<close> for an existing output directory; a failure of
  \<^verbatim>\<open>read_csv\<close>; the ValueError of the join for a column label on both sides;
  the ValueError of \<^verbatim>\<open>validate_attr\<close>, with the attribute and the set its
  message prints; KeyError; the three AssertionErrors of \<^verbatim>\<open>validate_images\<close>
  and the one of \<^verbatim>\<open>validate_image_split\<close> (assertions are executed, as the
  interpreter does by default); the OSErrors of the directory and copy operations; and
  the ValueError of a process pool of less than one worker.
\<close>

datatype error =
    OutdirExists string
  | ReadError string
  | ColumnsOverlap
  | UnknownAttribute string "string set"
  | KeyError string
  | CountMismatch nat nat
  | WrongExtension string string
  | MissingEntry string string
  | SplitCountMismatch
  | FileExistsError string
  | FileNotFoundError string
  | IsADirectoryError string
  | NotADirectoryError string
  | SameFileError string
  | PoolSizeError int

definition PARTITIONS :: "(string \<times> int) list" where
  "PARTITIONS = [(''train'', 0), (''val'', 1), (''test'', 2)]"

definition PART_COL :: string where
  "PART_COL = ''partition''"

definition FILE_EXT :: string where
  "FILE_EXT = ''.png''"

definition INDEX_EXT :: string where
  "INDEX_EXT = ''.jpg''"

definition columns :: "specs \<Rightarrow> string list" where
  "columns sp = PART_COL # attr_names sp"

text \<open>
  The cell of row \<open>r\<close> in the column named \<open>name\<close>; a row shorter than the
  header is padded with missing values, as \<^verbatim>\<open>read_csv\<close> does.
\<close>

definition row_value :: "specs \<Rightarrow> string \<Rightarrow> specs_row \<Rightarrow> cell" where
  "row_value sp name r =
     (if name = PART_COL then Some (row_partition r)
      else (case map_of (zip (attr_names sp) (row_attrs r)) name of
              None \<Rightarrow> None
            | Some c \<Rightarrow> c))"

text \<open>\<^verbatim>\<open>specs[name]\<close>: the column as a series, KeyError for an unknown label.\<close>

definition getitem :: "specs \<Rightarrow> string \<Rightarrow> error + cell list" where
  "getitem sp name =
     (if name \<in> set (columns sp) then Inr (map (row_value sp name) (rows sp))
      else Inl (KeyError name))"

text \<open>Element-wise comparisons of a series with a scalar; a missing value compares false.\<close>

definition series_eq :: "cell list \<Rightarrow> int \<Rightarrow> bool list" where
  "series_eq col v = map (\<lambda>c. c = Some v) col"

definition series_gt :: "cell list \<Rightarrow> int \<Rightarrow> bool list" where
  "series_gt col v = map (\<lambda>c. case c of None \<Rightarrow> False | Some x \<Rightarrow> x > v) col"

definition series_le :: "cell list \<Rightarrow> int \<Rightarrow> bool list" where
  "series_le col v = map (\<lambda>c. case c of None \<Rightarrow> False | Some x \<Rightarrow> x \<le> v) col"

definition mask_and :: "bool list \<Rightarrow> bool list \<Rightarrow> bool list" where
  "mask_and a b = map2 (\<and>) a b"

text \<open>\<^verbatim>\<open>specs[mask].index.to_list()\<close>: the index values of the rows the mask selects.\<close>

definition mask_index :: "specs \<Rightarrow> bool list \<Rightarrow> string list" where
  "mask_index sp msk = map (row_index \<circ> fst) (filter snd (zip (rows sp) msk))"

section \<open>The splitter\<close>

definition prepare_single_split ::
  "specs \<Rightarrow> string \<Rightarrow> string \<Rightarrow> error + (string list \<times> string list)" where
  "prepare_single_split sp attr part =
     (case getitem sp PART_COL of
        Inl e \<Rightarrow> Inl e
      | Inr pcol \<Rightarrow>
        (case map_of PARTITIONS part of
           None \<Rightarrow> Inl (KeyError part)
         | Some code \<Rightarrow>
           let part_mask = series_eq pcol code in
           (case getitem sp attr of
              Inl e \<Rightarrow> Inl e
            | Inr col \<Rightarrow>
                let mask_a = mask_and (series_gt col 0) part_mask;
                    mask_b = mask_and (series_le col 0) part_mask;
                    files_a = mask_index sp mask_a;
                    files_b = mask_index sp mask_b
                in Inr (files_a, files_b))))"

type_synonym split_dict = "(string \<times> string list) list"

definition prepare_image_split :: "specs \<Rightarrow> string \<Rightarrow> bool \<Rightarrow> error + split_dict" where
  "prepare_image_split sp attr separate_val =
     (case prepare_single_split sp attr ''train'' of
        Inl e \<Rightarrow> Inl e
      | Inr (train_a, train_b) \<Rightarrow>
     (case prepare_single_split sp attr ''val'' of
        Inl e \<Rightarrow> Inl e
      | Inr (val_a, val_b) \<Rightarrow>
     (case prepare_single_split sp attr ''test'' of
        Inl e \<Rightarrow> Inl e
      | Inr (test_a, test_b) \<Rightarrow>
        if separate_val then
          Inr [(''trainA'', train_a), (''trainB'', train_b),
               (''valA'', val_a), (''valB'', val_b),
               (''testA'', test_a), (''testB'', test_b)]
        else
          Inr [(''trainA'', train_a), (''trainB'', train_b),
               (''testA'', test_a @ val_a), (''testB'', test_b @ val_b)])))"

definition validate_image_split :: "specs \<Rightarrow> split_dict \<Rightarrow> error + unit" where
  "validate_image_split sp split_dict =
     (let count = sum_list (map (length \<circ> snd) split_dict)
      in if length (rows sp) = count then Inr () else Inl SplitCountMismatch)"

section \<open>The validator\<close>

text \<open>
  \<^verbatim>\<open>validate_attr\<close>: the set of column labels without \<^verbatim>\<open>partition\<close>;
  \<^verbatim>\<open>set.remove\<close> raises KeyError for an absent element. The ValueError carries
  the attribute asked for and the set that its message prints.
\<close>

definition validate_attr :: "specs \<Rightarrow> string \<Rightarrow> error + unit" where
  "validate_attr sp attr =
     (let attrs = set (columns sp) in
      if PART_COL \<notin> attrs then Inl (KeyError PART_COL)
      else
        let attrs' = attrs - {PART_COL} in
        if attr \<notin> attrs' then Inl (UnknownAttribute attr attrs') else Inr ())"

text \<open>\<^verbatim>\<open>str.rfind\<close> for a single character: the last position, or \<open>-1\<close>.\<close>

definition rfind :: "string \<Rightarrow> char \<Rightarrow> int" where
  "rfind p c =
     (case filter (\<lambda>i. p ! i = c) (rev [0..<length p]) of
        [] \<Rightarrow> - 1
      | i # _ \<Rightarrow> int i)"

text \<open>
  \<^verbatim>\<open>os.path.splitext\<close> of \<^verbatim>\<open>posixpath\<close>: the extension starts at the
  last dot of the last path component, unless only dots precede it there.
\<close>

definition splitext :: "string \<Rightarrow> string \<times> string" where
  "splitext p =
     (let sepIndex = rfind p CHR ''/'';
          dotIndex = rfind p CHR ''.''
      in if dotIndex > sepIndex
         then (if list_ex (\<lambda>i. p ! i \<noteq> CHR ''.'') [nat (sepIndex + 1)..<nat dotIndex]
               then (take (nat dotIndex) p, drop (nat dotIndex) p)
               else (p, []))
         else (p, []))"

fun validate_images_loop :: "string list \<Rightarrow> specs \<Rightarrow> error + unit" where
  "validate_images_loop [] sp = Inr ()"
| "validate_images_loop (img # images) sp =
     (let (base, ext) = splitext img in
      if ext \<noteq> FILE_EXT then Inl (WrongExtension img ext)
      else
        let entry_index = base @ INDEX_EXT in
        if entry_index \<notin> set (map row_index (rows sp))
        then Inl (MissingEntry img entry_index)
        else validate_images_loop images sp)"

definition validate_images :: "string list \<Rightarrow> specs \<Rightarrow> error + unit" where
  "validate_images images sp =
     (if length images \<noteq> length (rows sp)
      then Inl (CountMismatch (length images) (length (rows sp)))
      else validate_images_loop images sp)"

section \<open>The metadata loader\<close>

text \<open>
  The two metadata files as \<^verbatim>\<open>read_csv\<close> parses them: the partition table is
  a list of (file name, partition code) rows, the attribute table a header of attribute
  names and a list of (file name, values) rows. The parse itself is library code: what
  \<^verbatim>\<open>load_celeba_partition\<close> and \<^verbatim>\<open>load_celeba_attrs\<close> return for a
  path is a parameter of the loader.
\<close>

type_synonym part_table = "(string \<times> int) list"

record attrs_table =
  at_header :: "string list"
  at_rows :: "(string \<times> int list) list"

text \<open>
  \<^verbatim>\<open>df_partition.join(df_attrs)\<close>: pandas' left join on the index. Every row of
  the left table is kept, in order; it is paired with each right row of the same index
  value, or with missing values when there is none. Right rows whose index value is not
  in the left table are dropped. A column label present on both sides is an error.
\<close>

definition join_row :: "attrs_table \<Rightarrow> string \<times> int \<Rightarrow> specs_row list" where
  "join_row df_attrs kp =
     (case filter (\<lambda>kv. fst kv = fst kp) (at_rows df_attrs) of
        [] \<Rightarrow> [\<lparr>row_index = fst kp, row_partition = snd kp,
                row_attrs = replicate (length (at_header df_attrs)) None\<rparr>]
      | m # ms \<Rightarrow> map (\<lambda>kv. \<lparr>row_index = fst kp, row_partition = snd kp,
                               row_attrs = map Some (snd kv)\<rparr>) (m # ms))"

definition df_join :: "part_table \<Rightarrow> attrs_table \<Rightarrow> error + specs" where
  "df_join df_partition df_attrs =
     (if PART_COL \<in> set (at_header df_attrs) then Inl ColumnsOverlap
      else Inr \<lparr>attr_names = at_header df_attrs,
                rows = concat (map (join_row df_attrs) df_partition)\<rparr>)"

definition load_celeba_specs ::
  "(string \<Rightarrow> error + attrs_table) \<Rightarrow> (string \<Rightarrow> error + part_table) \<Rightarrow>
   string \<Rightarrow> string \<Rightarrow> error + specs" where
  "load_celeba_specs load_celeba_attrs load_celeba_partition path_attr path_part =
     (case load_celeba_partition path_part of
        Inl e \<Rightarrow> Inl e
      | Inr df_partition \<Rightarrow>
        (case load_celeba_attrs path_attr of
           Inl e \<Rightarrow> Inl e
         | Inr df_attrs \<Rightarrow> df_join df_partition df_attrs))"

section \<open>The file system, the output tree and the copy\<close>

text \<open>
  The file system is a table from path strings to nodes, read with \<open>map_of\<close>. The
  hierarchy is in the path strings: a directory's entries are the paths that extend it
  by one component. Permissions, links and missing parent directories are not part of
  the model; the operations fail only as written below.
\<close>

datatype node = Dir | File string

type_synonym fs = "(string \<times> node) list"

definition path_exists :: "fs \<Rightarrow> string \<Rightarrow> bool" where
  "path_exists fs p = (map_of fs p \<noteq> None)"

definition path_isdir :: "fs \<Rightarrow> string \<Rightarrow> bool" where
  "path_isdir fs p = (map_of fs p = Some Dir)"

definition path_join :: "string \<Rightarrow> string \<Rightarrow> string" where
  "path_join a b =
     (if b \<noteq> [] \<and> hd b = CHR ''/'' then b
      else if a = [] \<or> last a = CHR ''/'' then a @ b
      else a @ ''/'' @ b)"

definition basename :: "string \<Rightarrow> string" where
  "basename p = drop (nat (rfind p CHR ''/'' + 1)) p"

text \<open>\<^verbatim>\<open>os.makedirs(name, exist_ok = True)\<close>: an existing directory is accepted.\<close>

definition makedirs_exist_ok :: "fs \<Rightarrow> string \<Rightarrow> error + fs" where
  "makedirs_exist_ok fs name =
     (if name = [] then Inl (FileNotFoundError name)
      else (case map_of fs name of
              Some Dir \<Rightarrow> Inr fs
            | Some (File c) \<Rightarrow> Inl (FileExistsError name)
            | None \<Rightarrow> Inr (AList.update name Dir fs)))"

definition mkdir :: "fs \<Rightarrow> string \<Rightarrow> error + fs" where
  "mkdir fs p =
     (if path_exists fs p then Inl (FileExistsError p)
      else Inr (AList.update p Dir fs))"

text \<open>The entry names of a directory, in the order of the table.\<close>

definition entry_name :: "string \<Rightarrow> string \<Rightarrow> string option" where
  "entry_name root p =
     (let pre = (if root \<noteq> [] \<and> last root = CHR ''/'' then root else root @ ''/'');
          name = drop (length pre) p
      in if take (length pre) p = pre \<and> name \<noteq> [] \<and> CHR ''/'' \<notin> set name
         then Some name else None)"

definition listdir :: "fs \<Rightarrow> string \<Rightarrow> error + string list" where
  "listdir fs root =
     (case map_of fs root of
        None \<Rightarrow> Inl (FileNotFoundError root)
      | Some (File c) \<Rightarrow> Inl (NotADirectoryError root)
      | Some Dir \<Rightarrow> Inr (List.map_filter (entry_name root) (map fst fs)))"

definition collect_celeba_images :: "fs \<Rightarrow> string \<Rightarrow> error + string list" where
  "collect_celeba_images fs root =
     (case listdir fs root of Inl e \<Rightarrow> Inl e | Inr names \<Rightarrow> Inr (sort names))"

text \<open>
  \<^verbatim>\<open>shutil.copy(src, dst)\<close>: a destination that is a directory receives the file
  under the base name of the source.
\<close>

definition shutil_copy :: "fs \<Rightarrow> string \<Rightarrow> string \<Rightarrow> error + fs" where
  "shutil_copy fs src dst =
     (let dst' = (if path_isdir fs dst then path_join dst (basename src) else dst) in
      if src = dst' then Inl (SameFileError src)
      else (case map_of fs src of
              None \<Rightarrow> Inl (FileNotFoundError src)
            | Some Dir \<Rightarrow> Inl (IsADirectoryError src)
            | Some (File c) \<Rightarrow>
                (if path_isdir fs dst' then Inl (IsADirectoryError dst')
                 else Inr (AList.update dst' (File c) fs))))"

text \<open>\<^verbatim>\<open>CopyWorker.__call__\<close>, for a worker built from \<open>root_src\<close> and \<open>root_dst\<close>.\<close>

definition CopyWorker :: "string \<Rightarrow> string \<Rightarrow> fs \<Rightarrow> string \<Rightarrow> error + fs" where
  "CopyWorker root_src root_dst fs file_index =
     (let (base, ext) = splitext file_index;
          fname = base @ FILE_EXT;
          path_src = path_join root_src fname;
          path_dst = path_join root_dst fname
      in shutil_copy fs path_src path_dst)"

fun mkdir_each :: "string \<Rightarrow> string list \<Rightarrow> fs \<Rightarrow> (error + unit) \<times> fs" where
  "mkdir_each outdir [] fs = (Inr (), fs)"
| "mkdir_each outdir (subdir # subdirs) fs =
     (let path = path_join outdir subdir in
      case mkdir fs path of
        Inl e \<Rightarrow> (Inl e, fs)
      | Inr fs' \<Rightarrow> mkdir_each outdir subdirs fs')"

definition prepare_outdir :: "string \<Rightarrow> split_dict \<Rightarrow> fs \<Rightarrow> (error + unit) \<times> fs" where
  "prepare_outdir outdir split_dict fs =
     (case makedirs_exist_ok fs outdir of
        Inl e \<Rightarrow> (Inl e, fs)
      | Inr fs' \<Rightarrow> mkdir_each outdir (map fst split_dict) fs')"

text \<open>
  The copies of one bucket, in the order of the bucket's list: the order in which a pool
  of one worker (the default) completes them. The first failing copy ends the run and
  the files copied so far stay.
\<close>

fun pool_imap :: "(fs \<Rightarrow> string \<Rightarrow> error + fs) \<Rightarrow> string list \<Rightarrow> fs \<Rightarrow> (error + unit) \<times> fs" where
  "pool_imap worker [] fs = (Inr (), fs)"
| "pool_imap worker (f # files) fs =
     (case worker fs f of
        Inl e \<Rightarrow> (Inl e, fs)
      | Inr fs' \<Rightarrow> pool_imap worker files fs')"

text \<open>\<^verbatim>\<open>multiprocessing.Pool(processes = workers)\<close> raises ValueError below one process.\<close>

fun split_images ::
  "string \<Rightarrow> string \<Rightarrow> split_dict \<Rightarrow> int \<Rightarrow> fs \<Rightarrow> (error + unit) \<times> fs" where
  "split_images path_celeba outdir [] workers fs = (Inr (), fs)"
| "split_images path_celeba outdir ((subdir, files) # rest) workers fs =
     (let curr_outdir = path_join outdir subdir;
          worker = CopyWorker path_celeba curr_outdir
      in if workers < 1 then (Inl (PoolSizeError workers), fs)
         else (case pool_imap worker files fs of
                 (Inl e, fs') \<Rightarrow> (Inl e, fs')
               | (Inr u, fs') \<Rightarrow> split_images path_celeba outdir rest workers fs'))"

section \<open>The end-to-end run\<close>

text \<open>
  \<^verbatim>\<open>main\<close>, from the parsed command line and the file system to the result and
  the file system it leaves. The two readers stand for \<^verbatim>\<open>read_csv\<close> on the
  metadata files; reading changes nothing. Every exception ends the run where it is
  raised.
\<close>

record cmdargs =
  cmd_path_attr :: string
  cmd_path_part :: string
  cmd_attr :: string
  cmd_separate_val :: bool
  cmd_workers :: int
  cmd_path_celeba :: string
  cmd_outdir :: string

definition main ::
  "(string \<Rightarrow> error + attrs_table) \<Rightarrow> (string \<Rightarrow> error + part_table) \<Rightarrow>
   cmdargs \<Rightarrow> fs \<Rightarrow> (error + unit) \<times> fs" where
  "main load_celeba_attrs load_celeba_partition cmdargs fs =
     (if path_exists fs (cmd_outdir cmdargs) then (Inl (OutdirExists (cmd_outdir cmdargs)), fs)
      else
      (case load_celeba_specs load_celeba_attrs load_celeba_partition
              (cmd_path_attr cmdargs) (cmd_path_part cmdargs) of
         Inl e \<Rightarrow> (Inl e, fs)
       | Inr sp \<Rightarrow>
      (case validate_attr sp (cmd_attr cmdargs) of
         Inl e \<Rightarrow> (Inl e, fs)
       | Inr u \<Rightarrow>
      (case collect_celeba_images fs (cmd_path_celeba cmdargs) of
         Inl e \<Rightarrow> (Inl e, fs)
       | Inr images \<Rightarrow>
      (case validate_images images sp of
         Inl e \<Rightarrow> (Inl e, fs)
       | Inr u \<Rightarrow>
      (case prepare_image_split sp (cmd_attr cmdargs) (cmd_separate_val cmdargs) of
         Inl e \<Rightarrow> (Inl e, fs)
       | Inr split_dict \<Rightarrow>
      (case validate_image_split sp split_dict of
         Inl e \<Rightarrow> (Inl e, fs)
       | Inr u \<Rightarrow>
      (case prepare_outdir (cmd_outdir cmdargs) split_dict fs of
         (Inl e, fs') \<Rightarrow> (Inl e, fs')
       | (Inr u, fs') \<Rightarrow>
           split_images (cmd_path_celeba cmdargs) (cmd_outdir cmdargs) split_dict
             (cmd_workers cmdargs) fs'))))))))"

section \<open>Notions used to state the properties\<close>

text \<open>A cell counts as positive or as non-positive only when it holds a value.\<close>

definition cell_pos :: "cell \<Rightarrow> bool" where
  "cell_pos c = (case c of None \<Rightarrow> False | Some v \<Rightarrow> 0 < v)"

definition cell_nonpos :: "cell \<Rightarrow> bool" where
  "cell_nonpos c = (case c of None \<Rightarrow> False | Some v \<Rightarrow> v \<le> 0)"

text \<open>Row by row: the index values of class A and of class B for a partition code.\<close>

definition class_a :: "specs \<Rightarrow> string \<Rightarrow> int \<Rightarrow> string list" where
  "class_a sp attr code =
     map row_index
       (filter (\<lambda>r. cell_pos (row_value sp attr r) \<and> row_partition r = code) (rows sp))"

definition class_b :: "specs \<Rightarrow> string \<Rightarrow> int \<Rightarrow> string list" where
  "class_b sp attr code =
     map row_index
       (filter (\<lambda>r. cell_nonpos (row_value sp attr r) \<and> row_partition r = code) (rows sp))"

text \<open>Three train rows with the attribute values 1, -1 and 0.\<close>

definition example_specs :: specs where
  "example_specs = \<lparr>attr_names = [''Male''], rows =
     [\<lparr>row_index = ''row1'', row_partition = 0, row_attrs = [Some 1]\<rparr>,
      \<lparr>row_index = ''row2'', row_partition = 0, row_attrs = [Some (- 1)]\<rparr>,
      \<lparr>row_index = ''row3'', row_partition = 0, row_attrs = [Some 0]\<rparr>]\<rparr>"

text \<open>A row is covered when its partition code is one of 0, 1, 2 and its attribute value is present.\<close>

definition covered :: "specs \<Rightarrow> string \<Rightarrow> specs_row \<Rightarrow> bool" where
  "covered sp attr r = (row_partition r \<in> {0, 1, 2} \<and> row_value sp attr r \<noteq> None)"

text \<open>The total number of entries of a split, as \<^verbatim>\<open>validate_image_split\<close> counts it.\<close>

definition bucket_count :: "split_dict \<Rightarrow> nat" where
  "bucket_count d = sum_list (map (length \<circ> snd) d)"

text \<open>A table with one row whose partition code is 3.\<close>

definition bad_code_specs :: specs where
  "bad_code_specs = \<lparr>attr_names = [''Male''], rows =
     [\<lparr>row_index = ''a.jpg'', row_partition = 3, row_attrs = [Some 1]\<rparr>]\<rparr>"

text \<open>
  A table whose only row has no attribute value: the join of a partition table holding
  \<^verbatim>\<open>a.jpg\<close> with an attribute table that holds only \<^verbatim>\<open>b.jpg\<close>.
\<close>

definition missing_attr_specs :: specs where
  "missing_attr_specs = \<lparr>attr_names = [''Male''], rows =
     [\<lparr>row_index = ''a.jpg'', row_partition = 0, row_attrs = [None]\<rparr>]\<rparr>"

text \<open>A table with rows in all three partitions.\<close>

definition two_split_specs :: specs where
  "two_split_specs = \<lparr>attr_names = [''Male''], rows =
     [\<lparr>row_index = ''a.jpg'', row_partition = 1, row_attrs = [Some 1]\<rparr>,
      \<lparr>row_index = ''b.jpg'', row_partition = 2, row_attrs = [Some 1]\<rparr>,
      \<lparr>row_index = ''c.jpg'', row_partition = 0, row_attrs = [Some (- 1)]\<rparr>,
      \<lparr>row_index = ''d.jpg'', row_partition = 2, row_attrs = [Some 0]\<rparr>]\<rparr>"








text \<open>
  The precondition error (the output directory exists) and the data-integrity errors
  (unknown attribute; image count, extension or index mismatch; split count mismatch).
\<close>

fun is_check_error :: "error \<Rightarrow> bool" where
  "is_check_error (OutdirExists p) = True"
| "is_check_error (UnknownAttribute a s) = True"
| "is_check_error (CountMismatch n m) = True"
| "is_check_error (WrongExtension i e) = True"
| "is_check_error (MissingEntry i e) = True"
| "is_check_error SplitCountMismatch = True"
| "is_check_error e = False"

text \<open>
  A run on two images: the file system before and after, a file system with one image
  only, the two metadata tables as read, and the command line.
\<close>

definition example_fs :: fs where
  "example_fs = [(''imgs'', Dir), (''imgs/b.png'', File ''B''), (''imgs/a.png'', File ''A'')]"

definition example_fs_after :: fs where
  "example_fs_after =
     [(''imgs'', Dir), (''imgs/b.png'', File ''B''), (''imgs/a.png'', File ''A''),
      (''out'', Dir), (''out/trainA'', Dir), (''out/trainB'', Dir), (''out/testA'', Dir),
      (''out/testB'', Dir), (''out/trainA/a.png'', File ''A''),
      (''out/testB/b.png'', File ''B'')]"

definition one_image_fs :: fs where
  "one_image_fs = [(''imgs'', Dir), (''imgs/a.png'', File ''A'')]"

definition read_example_part :: "string \<Rightarrow> error + part_table" where
  "read_example_part path = Inr [(''a.jpg'', 0), (''b.jpg'', 2)]"

definition read_example_attrs :: "string \<Rightarrow> error + attrs_table" where
  "read_example_attrs path =
     Inr \<lparr>at_header = [''Male''], at_rows = [(''a.jpg'', [1]), (''b.jpg'', [- 1])]\<rparr>"

definition example_args :: cmdargs where
  "example_args = \<lparr>cmd_path_attr = ''list_attr_celeba.txt'',
     cmd_path_part = ''list_eval_partition.txt'', cmd_attr = ''Male'',
     cmd_separate_val = False, cmd_workers = 1, cmd_path_celeba = ''imgs'',
     cmd_outdir = ''out''\<rparr>"

section \<open>The splitter: column-wise masks and row-wise filters\<close>

lemma filter_zip_map:
  "map (f \<circ> fst) (filter snd (zip xs (map P xs))) = map f (filter P xs)"
  by (induction xs) simp_all

lemma mask_index_map: "mask_index sp (map P (rows sp)) = map row_index (filter P (rows sp))"
  unfolding mask_index_def by (rule filter_zip_map)

lemma mask_and_map: "mask_and (map P xs) (map Q xs) = map (\<lambda>x. P x \<and> Q x) xs"
  unfolding mask_and_def by (induction xs) simp_all

lemma getitem_PART_COL:
  "getitem sp PART_COL = Inr (map (\<lambda>r. Some (row_partition r)) (rows sp))"
  by (simp add: getitem_def columns_def row_value_def)

lemma getitem_column:
  "attr \<in> set (columns sp) \<Longrightarrow> getitem sp attr = Inr (map (row_value sp attr) (rows sp))"
  by (simp add: getitem_def)

lemma getitem_unknown: "attr \<notin> set (columns sp) \<Longrightarrow> getitem sp attr = Inl (KeyError attr)"
  by (simp add: getitem_def)

lemma prepare_single_split_filter:
  assumes "attr \<in> set (columns sp)" and "map_of PARTITIONS part = Some code"
  shows "prepare_single_split sp attr part = Inr (class_a sp attr code, class_b sp attr code)"
  using assms(2)
  by (simp add: prepare_single_split_def getitem_PART_COL getitem_column[OF assms(1)]
      series_eq_def series_gt_def series_le_def mask_and_map mask_index_map class_a_def
      class_b_def cell_pos_def cell_nonpos_def comp_def)

lemma prepare_single_split_unknown_attr:
  assumes "attr \<notin> set (columns sp)" and "map_of PARTITIONS part = Some code"
  shows "prepare_single_split sp attr part = Inl (KeyError attr)"
  using assms(2)
  by (simp add: prepare_single_split_def getitem_PART_COL getitem_unknown[OF assms(1)])

lemma cell_pos_iff: "cell_pos c \<longleftrightarrow> (\<exists>v. c = Some v \<and> 0 < v)"
  by (cases c) (simp_all add: cell_pos_def)

lemma cell_nonpos_iff: "cell_nonpos c \<longleftrightarrow> (\<exists>v. c = Some v \<and> v \<le> 0)"
  by (cases c) (simp_all add: cell_nonpos_def)

text \<open>
  C1. For an attribute column of the table and a partition name among train, val and
  test, \<^verbatim>\<open>prepare_single_split\<close> returns two lists: the index values of the rows
  whose attribute value is greater than 0 and whose partition code is the code of the
  name, and those of the rows whose attribute value is at most 0 with that code, both in
  the order of the table. For three train rows with the values 1, -1 and 0 the result is
  \<open>[row1]\<close> and \<open>[row2, row3]\<close>: the value 0 goes to class B.
\<close>

theorem prepare_single_split_spec:
  assumes "attr \<in> set (columns sp)"
    and "(part, code) \<in> {(''train'', 0), (''val'', 1), (''test'', 2)}"
  shows "prepare_single_split sp attr part =
      Inr (map row_index (filter (\<lambda>r. (\<exists>v. row_value sp attr r = Some v \<and> 0 < v)
                                       \<and> row_partition r = code) (rows sp)),
           map row_index (filter (\<lambda>r. (\<exists>v. row_value sp attr r = Some v \<and> v \<le> 0)
                                       \<and> row_partition r = code) (rows sp)))
    \<and> prepare_single_split example_specs ''Male'' ''train''
        = Inr ([''row1''], [''row2'', ''row3''])"
proof -
  from assms(2) have "map_of PARTITIONS part = Some code"
    by (auto simp: PARTITIONS_def)
  from prepare_single_split_filter[OF assms(1) this]
  have "prepare_single_split sp attr part = Inr (class_a sp attr code, class_b sp attr code)" .
  moreover have "prepare_single_split example_specs ''Male'' ''train''
      = Inr ([''row1''], [''row2'', ''row3''])"
    by code_simp
  ultimately show ?thesis
    by (simp add: class_a_def class_b_def cell_pos_iff cell_nonpos_iff)
qed

theorem prepare_single_split_spec_witness:
  "''Male'' \<in> set (columns example_specs)
   \<and> prepare_single_split example_specs ''Male'' ''val'' = Inr ([], [])"
  using prepare_single_split_spec[of "''Male''" example_specs "''val''" 1]
  by (simp add: example_specs_def columns_def)

section \<open>The splitter: buckets\<close>

lemma validate_attr_ok_iff:
  "validate_attr sp attr = Inr () \<longleftrightarrow> attr \<in> set (attr_names sp) \<and> attr \<noteq> PART_COL"
  by (auto simp: validate_attr_def columns_def Let_def)

lemma validate_attr_columns: "validate_attr sp attr = Inr () \<Longrightarrow> attr \<in> set (columns sp)"
  by (simp add: validate_attr_ok_iff columns_def)

lemma map_of_PARTITIONS:
  "map_of PARTITIONS ''train'' = Some 0" "map_of PARTITIONS ''val'' = Some 1"
  "map_of PARTITIONS ''test'' = Some 2"
  by (simp_all add: PARTITIONS_def)

lemma prepare_image_split_eq:
  assumes "attr \<in> set (columns sp)"
  shows "prepare_image_split sp attr separate_val =
     Inr (if separate_val then
            [(''trainA'', class_a sp attr 0), (''trainB'', class_b sp attr 0),
             (''valA'', class_a sp attr 1), (''valB'', class_b sp attr 1),
             (''testA'', class_a sp attr 2), (''testB'', class_b sp attr 2)]
          else
            [(''trainA'', class_a sp attr 0), (''trainB'', class_b sp attr 0),
             (''testA'', class_a sp attr 2 @ class_a sp attr 1),
             (''testB'', class_b sp attr 2 @ class_b sp attr 1)])"
  by (simp add: prepare_image_split_def prepare_single_split_filter[OF assms]
      map_of_PARTITIONS)

lemma six_way_mset:
  fixes p :: "'a \<Rightarrow> int"
  assumes "\<And>r. \<not> (A r \<and> B r)"
  shows "mset (filter (\<lambda>r. A r \<and> p r = 0) xs) + mset (filter (\<lambda>r. B r \<and> p r = 0) xs)
       + (mset (filter (\<lambda>r. A r \<and> p r = 1) xs) + mset (filter (\<lambda>r. B r \<and> p r = 1) xs))
       + (mset (filter (\<lambda>r. A r \<and> p r = 2) xs) + mset (filter (\<lambda>r. B r \<and> p r = 2) xs))
       = mset (filter (\<lambda>r. p r \<in> {0, 1, 2} \<and> (A r \<or> B r)) xs)"
  using assms by (induction xs) auto

lemma cell_pos_nonpos_excl: "\<not> (cell_pos c \<and> cell_nonpos c)"
  by (cases c) (simp_all add: cell_pos_def cell_nonpos_def)

lemma cell_pos_nonpos_cover: "cell_pos c \<or> cell_nonpos c \<longleftrightarrow> c \<noteq> None"
  by (cases c) (auto simp: cell_pos_def cell_nonpos_def)

lemma classes_mset:
  "mset (class_a sp attr 0) + mset (class_b sp attr 0)
   + (mset (class_a sp attr 1) + mset (class_b sp attr 1))
   + (mset (class_a sp attr 2) + mset (class_b sp attr 2))
   = mset (map row_index (filter (covered sp attr) (rows sp)))"
proof -
  have "mset (map row_index (filter (covered sp attr) (rows sp)))
      = image_mset row_index (mset (filter (\<lambda>r. row_partition r \<in> {0, 1, 2}
          \<and> (cell_pos (row_value sp attr r) \<or> cell_nonpos (row_value sp attr r))) (rows sp)))"
    by (simp add: covered_def cell_pos_nonpos_cover)
  also have "\<dots> = image_mset row_index
      (mset (filter (\<lambda>r. cell_pos (row_value sp attr r) \<and> row_partition r = 0) (rows sp))
       + mset (filter (\<lambda>r. cell_nonpos (row_value sp attr r) \<and> row_partition r = 0) (rows sp))
       + (mset (filter (\<lambda>r. cell_pos (row_value sp attr r) \<and> row_partition r = 1) (rows sp))
       + mset (filter (\<lambda>r. cell_nonpos (row_value sp attr r) \<and> row_partition r = 1) (rows sp)))
       + (mset (filter (\<lambda>r. cell_pos (row_value sp attr r) \<and> row_partition r = 2) (rows sp))
       + mset (filter (\<lambda>r. cell_nonpos (row_value sp attr r) \<and> row_partition r = 2) (rows sp))))"
    by (subst six_way_mset[where A = "\<lambda>r. cell_pos (row_value sp attr r)"
          and B = "\<lambda>r. cell_nonpos (row_value sp attr r)" and p = row_partition])
       (simp_all add: cell_pos_nonpos_excl)
  finally show ?thesis
    by (simp add: class_a_def class_b_def)
qed

lemma buckets_mset:
  assumes "attr \<in> set (columns sp)" and "prepare_image_split sp attr separate_val = Inr d"
  shows "mset (concat (map snd d)) = mset (map row_index (filter (covered sp attr) (rows sp)))"
proof -
  from assms have "mset (concat (map snd d)) =
     mset (class_a sp attr 0) + mset (class_b sp attr 0)
   + (mset (class_a sp attr 1) + mset (class_b sp attr 1))
   + (mset (class_a sp attr 2) + mset (class_b sp attr 2))"
    by (auto simp: prepare_image_split_eq split: if_splits)
  then show ?thesis by (simp only: classes_mset)
qed

lemma bucket_count_concat: "bucket_count d = length (concat (map snd d))"
  by (simp add: bucket_count_def length_concat comp_def)

lemma buckets_count:
  assumes "attr \<in> set (columns sp)" and "prepare_image_split sp attr separate_val = Inr d"
  shows "bucket_count d = length (filter (covered sp attr) (rows sp))"
proof -
  have "bucket_count d = size (mset (concat (map snd d)))"
    by (simp add: bucket_count_concat)
  also have "\<dots> = size (mset (map row_index (filter (covered sp attr) (rows sp))))"
    by (simp only: buckets_mset[OF assms])
  also have "\<dots> = length (map row_index (filter (covered sp attr) (rows sp)))"
    by (rule size_mset)
  finally show ?thesis by simp
qed

lemma covered_all:
  "length (filter (covered sp attr) (rows sp)) = length (rows sp)
   \<longleftrightarrow> (\<forall>r\<in>set (rows sp). covered sp attr r)"
  by (metis filter_id_conv length_filter_less less_irrefl_nat)

lemma covered_less:
  "r \<in> set (rows sp) \<Longrightarrow> \<not> covered sp attr r \<Longrightarrow>
   length (filter (covered sp attr) (rows sp)) < length (rows sp)"
  by (rule length_filter_less)

lemma validate_attr_two_split: "validate_attr two_split_specs ''Male'' = Inr ()"
  by (simp add: validate_attr_ok_iff two_split_specs_def PART_COL_def)

text \<open>
  C5. For a valid attribute and \<^verbatim>\<open>separate_val\<close> false, the bucket
  \<^verbatim>\<open>testA\<close> of \<^verbatim>\<open>prepare_image_split\<close> is the class-A list of the test
  partition followed by the class-A list of the val partition, every test item before
  every val item; likewise \<^verbatim>\<open>testB\<close> for class B.
\<close>

theorem merged_test_order:
  assumes "validate_attr sp attr = Inr ()"
  shows "\<exists>test_a test_b val_a val_b d.
           prepare_single_split sp attr ''test'' = Inr (test_a, test_b)
         \<and> prepare_single_split sp attr ''val'' = Inr (val_a, val_b)
         \<and> prepare_image_split sp attr False = Inr d
         \<and> map_of d ''testA'' = Some (test_a @ val_a)
         \<and> map_of d ''testB'' = Some (test_b @ val_b)
         \<and> (\<forall>xs. map_of d ''testA'' = Some xs \<longrightarrow>
               take (length test_a) xs = test_a \<and> drop (length test_a) xs = val_a)
         \<and> (\<forall>ys. map_of d ''testB'' = Some ys \<longrightarrow>
               take (length test_b) ys = test_b \<and> drop (length test_b) ys = val_b)"
proof -
  from assms have col: "attr \<in> set (columns sp)" by (rule validate_attr_columns)
  show ?thesis
    by (simp add: prepare_image_split_eq[OF col] prepare_single_split_filter[OF col]
        map_of_PARTITIONS)
qed

theorem merged_test_order_witness:
  "validate_attr two_split_specs ''Male'' = Inr ()
   \<and> prepare_image_split two_split_specs ''Male'' False
       = Inr [(''trainA'', []), (''trainB'', [''c.jpg'']),
              (''testA'', [''b.jpg'', ''a.jpg'']), (''testB'', [''d.jpg''])]"
proof -
  have "prepare_image_split two_split_specs ''Male'' False
       = Inr [(''trainA'', []), (''trainB'', [''c.jpg'']),
              (''testA'', [''b.jpg'', ''a.jpg'']), (''testB'', [''d.jpg''])]"
    by code_simp
  with merged_test_order[OF validate_attr_two_split] validate_attr_two_split
  show ?thesis by simp
qed

text \<open>
  C6. For a valid attribute, \<^verbatim>\<open>prepare_image_split\<close> with
  \<^verbatim>\<open>separate_val\<close> false yields exactly the bucket names trainA, trainB, testA,
  testB; with \<^verbatim>\<open>separate_val\<close> true it yields exactly six names, and valA and
  valB hold the two lists of the val partition.
\<close>

theorem bucket_names:
  assumes "validate_attr sp attr = Inr ()"
  shows "(\<exists>d. prepare_image_split sp attr False = Inr d
            \<and> map fst d = [''trainA'', ''trainB'', ''testA'', ''testB''])
       \<and> (\<exists>d val_a val_b. prepare_image_split sp attr True = Inr d
            \<and> map fst d = [''trainA'', ''trainB'', ''valA'', ''valB'', ''testA'', ''testB'']
            \<and> prepare_single_split sp attr ''val'' = Inr (val_a, val_b)
            \<and> map_of d ''valA'' = Some val_a \<and> map_of d ''valB'' = Some val_b)"
proof -
  from assms have col: "attr \<in> set (columns sp)" by (rule validate_attr_columns)
  show ?thesis
    by (simp add: prepare_image_split_eq[OF col] prepare_single_split_filter[OF col]
        map_of_PARTITIONS)
qed

theorem bucket_names_witness:
  "validate_attr two_split_specs ''Male'' = Inr ()
   \<and> prepare_image_split two_split_specs ''Male'' True
       = Inr [(''trainA'', []), (''trainB'', [''c.jpg'']),
              (''valA'', [''a.jpg'']), (''valB'', []),
              (''testA'', [''b.jpg'']), (''testB'', [''d.jpg''])]"
proof -
  have "prepare_image_split two_split_specs ''Male'' True
       = Inr [(''trainA'', []), (''trainB'', [''c.jpg'']),
              (''valA'', [''a.jpg'']), (''valB'', []),
              (''testA'', [''b.jpg'']), (''testB'', [''d.jpg''])]"
    by code_simp
  with bucket_names[OF validate_attr_two_split] validate_attr_two_split
  show ?thesis by simp
qed

lemma validate_image_split_count:
  "validate_image_split sp d = (if length (rows sp) = bucket_count d then Inr () else Inl SplitCountMismatch)"
  by (simp add: validate_image_split_def bucket_count_def)




text \<open>
  C10, as stated, fails in its last part: all partition codes lie in \<open>{0, 1, 2}\<close>
  and still the buckets do not cover the table, when an attribute value is missing. The
  loader produces such a table from a partition file and an attribute file whose file
  names differ.
\<close>

theorem bad_partition_code_counterexample:
  "validate_attr missing_attr_specs ''Male'' = Inr ()
   \<and> map row_partition (rows missing_attr_specs) = [0]
   \<and> prepare_image_split missing_attr_specs ''Male'' False
       = Inr [(''trainA'', []), (''trainB'', []), (''testA'', []), (''testB'', [])]
   \<and> validate_image_split missing_attr_specs
        [(''trainA'', []), (''trainB'', []), (''testA'', []), (''testB'', [])]
       = Inl SplitCountMismatch
   \<and> df_join [(''a.jpg'', 0)] \<lparr>at_header = [''Male''], at_rows = [(''b.jpg'', [1])]\<rparr>
       = Inr missing_attr_specs"
proof -
  have "validate_attr missing_attr_specs ''Male'' = Inr ()"
    by (simp add: validate_attr_ok_iff missing_attr_specs_def PART_COL_def)
  moreover have "prepare_image_split missing_attr_specs ''Male'' False
       = Inr [(''trainA'', []), (''trainB'', []), (''testA'', []), (''testB'', [])]"
    by code_simp
  moreover have "df_join [(''a.jpg'', 0)] \<lparr>at_header = [''Male''], at_rows = [(''b.jpg'', [1])]\<rparr>
       = Inr missing_attr_specs"
    by (simp add: df_join_def join_row_def missing_attr_specs_def PART_COL_def)
  ultimately show ?thesis
    by (simp add: missing_attr_specs_def validate_image_split_def)
qed

text \<open>
  C10, amended. For a valid attribute the buckets of \<^verbatim>\<open>prepare_image_split\<close>
  hold exactly the rows whose partition code is 0, 1 or 2 and whose attribute value is
  present. A table with a row of another partition code has bucket lengths that sum to
  strictly less than the row count, and \<^verbatim>\<open>validate_image_split\<close> raises. The
  buckets cover every row exactly when all partition codes lie in \<open>{0, 1, 2}\<close> and no
  attribute value is missing.
\<close>

theorem bad_partition_code_amended:
  assumes "validate_attr sp attr = Inr ()"
  shows "\<exists>d. prepare_image_split sp attr separate_val = Inr d
     \<and> sum_list (map (length \<circ> snd) d)
         = length (filter (\<lambda>r. row_partition r \<in> {0, 1, 2} \<and> row_value sp attr r \<noteq> None)
                    (rows sp))
     \<and> mset (concat (map snd d))
         = mset (map row_index
             (filter (\<lambda>r. row_partition r \<in> {0, 1, 2} \<and> row_value sp attr r \<noteq> None)
                (rows sp)))
     \<and> ((\<exists>r\<in>set (rows sp). row_partition r \<notin> {0, 1, 2}) \<longrightarrow>
           sum_list (map (length \<circ> snd) d) < length (rows sp)
           \<and> validate_image_split sp d = Inl SplitCountMismatch)
     \<and> (validate_image_split sp d = Inr () \<longleftrightarrow>
           (\<forall>r\<in>set (rows sp). row_partition r \<in> {0, 1, 2} \<and> row_value sp attr r \<noteq> None))"
proof -
  from assms(1) have col: "attr \<in> set (columns sp)" by (rule validate_attr_columns)
  obtain d where d: "prepare_image_split sp attr separate_val = Inr d"
    by (simp add: prepare_image_split_eq[OF col])
  have cov: "covered sp attr = (\<lambda>r. row_partition r \<in> {0, 1, 2} \<and> row_value sp attr r \<noteq> None)"
    by (rule ext) (simp add: covered_def)
  have c: "bucket_count d = length (filter (covered sp attr) (rows sp))"
    by (rule buckets_count[OF col d])
  have m: "mset (concat (map snd d)) = mset (map row_index (filter (covered sp attr) (rows sp)))"
    by (rule buckets_mset[OF col d])
  have less: "bucket_count d < length (rows sp)"
    if "\<exists>r\<in>set (rows sp). row_partition r \<notin> {0, 1, 2}"
  proof -
    from that obtain r where "r \<in> set (rows sp)" "\<not> covered sp attr r"
      by (auto simp: covered_def)
    then show ?thesis unfolding c by (rule covered_less)
  qed
  have ok: "validate_image_split sp d = Inr () \<longleftrightarrow> (\<forall>r\<in>set (rows sp). covered sp attr r)"
    using covered_all[of sp attr] by (auto simp: validate_image_split_count c)
  have bad: "validate_image_split sp d = Inl SplitCountMismatch"
    if "\<exists>r\<in>set (rows sp). row_partition r \<notin> {0, 1, 2}"
    using less[OF that] by (simp add: validate_image_split_count)
  from c m less bad ok have
    "bucket_count d = length (filter (covered sp attr) (rows sp))
     \<and> mset (concat (map snd d)) = mset (map row_index (filter (covered sp attr) (rows sp)))
     \<and> ((\<exists>r\<in>set (rows sp). row_partition r \<notin> {0, 1, 2}) \<longrightarrow>
           bucket_count d < length (rows sp)
           \<and> validate_image_split sp d = Inl SplitCountMismatch)
     \<and> (validate_image_split sp d = Inr () \<longleftrightarrow> (\<forall>r\<in>set (rows sp). covered sp attr r))"
    by blast
  then show ?thesis
    unfolding cov bucket_count_def using d by blast
qed

theorem bad_partition_code_amended_witness:
  "validate_attr bad_code_specs ''Male'' = Inr ()
   \<and> (\<exists>r\<in>set (rows bad_code_specs). row_partition r \<notin> {0, 1, 2})
   \<and> (\<exists>d. prepare_image_split bad_code_specs ''Male'' False = Inr d
         \<and> validate_image_split bad_code_specs d = Inl SplitCountMismatch)"
proof -
  have v: "validate_attr bad_code_specs ''Male'' = Inr ()"
    by (simp add: validate_attr_ok_iff bad_code_specs_def PART_COL_def)
  have b: "\<exists>r\<in>set (rows bad_code_specs). row_partition r \<notin> {0, 1, 2}"
    by (simp add: bad_code_specs_def)
  from bad_partition_code_amended[OF v, of False] b v show ?thesis
    by blast
qed

section \<open>The validator and the loader\<close>

lemma validate_images_loop_find:
  "validate_images_loop images sp =
        (case find (\<lambda>img. snd (splitext img) \<noteq> ''.png''
                      \<or> fst (splitext img) @ ''.jpg'' \<notin> set (map row_index (rows sp))) images of
           None \<Rightarrow> Inr ()
         | Some img \<Rightarrow>
             if snd (splitext img) \<noteq> ''.png''
             then Inl (WrongExtension img (snd (splitext img)))
             else Inl (MissingEntry img (fst (splitext img) @ ''.jpg'')))"
  by (induction images)
     (auto simp: FILE_EXT_def INDEX_EXT_def Let_def split: prod.splits)

lemma validate_images_loop_ok:
  "validate_images_loop images sp = Inr () \<longleftrightarrow>
      (\<forall>img\<in>set images. snd (splitext img) = ''.png''
              \<and> fst (splitext img) @ ''.jpg'' \<in> set (map row_index (rows sp)))"
  by (induction images)
     (auto simp: FILE_EXT_def INDEX_EXT_def Let_def split: prod.splits)

text \<open>
  C7. \<^verbatim>\<open>validate_images\<close> fails with the count mismatch when the number of
  files differs from the number of table rows. Otherwise it fails at the first file whose
  extension is not \<^verbatim>\<open>.png\<close> (wrong extension) or whose name with
  \<^verbatim>\<open>.jpg\<close> in place of the extension is not in the table's index (missing
  entry), with the error of that file. It succeeds exactly when the counts agree and
  every file has the extension and an index entry.
\<close>

theorem validate_images_spec:
  "(length images \<noteq> length (rows sp) \<longrightarrow>
      validate_images images sp = Inl (CountMismatch (length images) (length (rows sp))))
   \<and> (length images = length (rows sp) \<longrightarrow>
      validate_images images sp =
        (case find (\<lambda>img. snd (splitext img) \<noteq> ''.png''
                      \<or> fst (splitext img) @ ''.jpg'' \<notin> set (map row_index (rows sp))) images of
           None \<Rightarrow> Inr ()
         | Some img \<Rightarrow>
             if snd (splitext img) \<noteq> ''.png''
             then Inl (WrongExtension img (snd (splitext img)))
             else Inl (MissingEntry img (fst (splitext img) @ ''.jpg''))))
   \<and> (validate_images images sp = Inr () \<longleftrightarrow>
        length images = length (rows sp)
        \<and> (\<forall>img\<in>set images. snd (splitext img) = ''.png''
              \<and> fst (splitext img) @ ''.jpg'' \<in> set (map row_index (rows sp))))"
  using validate_images_loop_find[of images sp] validate_images_loop_ok[of images sp]
  by (simp add: validate_images_def)

theorem validate_images_spec_witness:
  "validate_images [''a.png'', ''b.txt''] two_split_specs = Inl (CountMismatch 2 4)
   \<and> validate_images [''a.png'', ''b.txt'', ''c.png'', ''d.png''] two_split_specs
       = Inl (WrongExtension ''b.txt'' ''.txt'')
   \<and> validate_images [''a.png'', ''b.png'', ''c.png'', ''e.png''] two_split_specs
       = Inl (MissingEntry ''e.png'' ''e.jpg'')
   \<and> validate_images [''a.png'', ''b.png'', ''c.png'', ''d.png''] two_split_specs = Inr ()"
proof -
  have sx: "splitext ''a.png'' = (''a'', ''.png'')" "splitext ''b.png'' = (''b'', ''.png'')"
    "splitext ''c.png'' = (''c'', ''.png'')" "splitext ''d.png'' = (''d'', ''.png'')"
    "splitext ''e.png'' = (''e'', ''.png'')" "splitext ''b.txt'' = (''b'', ''.txt'')"
    by code_simp+
  have idx: "map row_index (rows two_split_specs) = [''a.jpg'', ''b.jpg'', ''c.jpg'', ''d.jpg'']"
    by (simp add: two_split_specs_def)
  have len: "length (rows two_split_specs) = 4"
    by (simp add: two_split_specs_def)
  show ?thesis
    using validate_images_spec[of "[''a.png'', ''b.txt'']" two_split_specs]
      validate_images_spec[of "[''a.png'', ''b.txt'', ''c.png'', ''d.png'']" two_split_specs]
      validate_images_spec[of "[''a.png'', ''b.png'', ''c.png'', ''e.png'']" two_split_specs]
      validate_images_spec[of "[''a.png'', ''b.png'', ''c.png'', ''d.png'']" two_split_specs]
    by (simp add: sx idx len)
qed

text \<open>
  C8. \<^verbatim>\<open>validate_attr\<close> fails if and only if the attribute is not among the
  table's columns other than \<^verbatim>\<open>partition\<close>; the error is the ValueError, and
  the set its message prints is the set of all attribute names, without the partition
  column.
\<close>

theorem validate_attr_spec:
  "(validate_attr sp attr = Inr () \<longleftrightarrow> attr \<in> set (columns sp) - {PART_COL})
   \<and> (attr \<notin> set (columns sp) - {PART_COL} \<longrightarrow>
        validate_attr sp attr = Inl (UnknownAttribute attr (set (columns sp) - {PART_COL})))
   \<and> ((\<exists>e. validate_attr sp attr = Inl e) \<longleftrightarrow> attr \<notin> set (columns sp) - {PART_COL})
   \<and> set (columns sp) - {PART_COL} = set (attr_names sp) - {''partition''}"
  by (auto simp: validate_attr_def columns_def Let_def PART_COL_def)

theorem validate_attr_spec_witness:
  "validate_attr two_split_specs ''Smiling'' = Inl (UnknownAttribute ''Smiling'' {''Male''})
   \<and> validate_attr two_split_specs ''partition'' = Inl (UnknownAttribute ''partition'' {''Male''})
   \<and> validate_attr two_split_specs ''Male'' = Inr ()"
proof -
  have "set (attr_names two_split_specs) - {''partition''} = {''Male''}"
    by (simp add: two_split_specs_def)
  then show ?thesis
    using validate_attr_spec[of two_split_specs "''Smiling''"]
      validate_attr_spec[of two_split_specs "''partition''"]
      validate_attr_spec[of two_split_specs "''Male''"]
    by (simp add: PART_COL_def columns_def two_split_specs_def)
qed








section \<open>The end-to-end run: checks before writes\<close>

lemma path_exists_update: "path_exists fs p \<Longrightarrow> path_exists (AList.update k v fs) p"
  by (simp add: path_exists_def update_conv')

lemma path_exists_update_key: "path_exists (AList.update k v fs) k"
  by (simp add: path_exists_def update_conv')

lemma makedirs_exists: "makedirs_exist_ok fs name = Inr fs' \<Longrightarrow> path_exists fs' name"
  by (auto simp: makedirs_exist_ok_def path_exists_def update_conv'
      split: if_splits option.splits node.splits)

lemma mkdir_mono: "mkdir fs q = Inr fs' \<Longrightarrow> path_exists fs p \<Longrightarrow> path_exists fs' p"
  by (auto simp: mkdir_def path_exists_update split: if_splits)

lemma mkdir_each_mono:
  "mkdir_each outdir subdirs fs = (Inr u, fs') \<Longrightarrow> path_exists fs p \<Longrightarrow> path_exists fs' p"
proof (induction subdirs arbitrary: fs)
  case Nil
  then show ?case by simp
next
  case (Cons subdir subdirs)
  then show ?case
    by (auto simp: Let_def split: sum.splits dest: mkdir_mono)
qed

lemma prepare_outdir_exists:
  "prepare_outdir outdir split_dict fs = (Inr u, fs') \<Longrightarrow> path_exists fs' outdir"
  by (auto simp: prepare_outdir_def split: sum.splits dest: makedirs_exists mkdir_each_mono)

lemma shutil_copy_mono:
  "shutil_copy fs src dst = Inr fs' \<Longrightarrow> path_exists fs p \<Longrightarrow> path_exists fs' p"
  by (auto simp: shutil_copy_def Let_def path_exists_update
      split: if_splits option.splits node.splits)

lemma CopyWorker_mono:
  "CopyWorker root_src root_dst fs file_index = Inr fs' \<Longrightarrow> path_exists fs p \<Longrightarrow> path_exists fs' p"
  by (auto simp: CopyWorker_def Let_def split: prod.splits dest: shutil_copy_mono)

lemma pool_imap_mono:
  assumes "\<And>fs f fs'. worker fs f = Inr fs' \<Longrightarrow> path_exists fs p \<Longrightarrow> path_exists fs' p"
  shows "pool_imap worker files fs = (Inr u, fs') \<Longrightarrow> path_exists fs p \<Longrightarrow> path_exists fs' p"
proof (induction files arbitrary: fs)
  case Nil
  then show ?case by simp
next
  case (Cons f files)
  then show ?case
    by (auto split: sum.splits dest: assms)
qed

lemma split_images_mono:
  "split_images path_celeba outdir split_dict workers fs = (Inr u, fs') \<Longrightarrow>
   path_exists fs p \<Longrightarrow> path_exists fs' p"
proof (induction split_dict arbitrary: fs)
  case Nil
  then show ?case by simp
next
  case (Cons b rest)
  obtain subdir files where b: "b = (subdir, files)" by (cases b)
  from Cons.prems(1) obtain fs1 where
    1: "pool_imap (CopyWorker path_celeba (path_join outdir subdir)) files fs = (Inr (), fs1)"
    and 2: "split_images path_celeba outdir rest workers fs1 = (Inr u, fs')"
    by (auto simp: b Let_def split: if_splits prod.splits sum.splits)
  have "path_exists fs1 p"
    by (rule pool_imap_mono[OF _ 1 Cons.prems(2)]) (rule CopyWorker_mono)
  with 2 show ?case by (rule Cons.IH)
qed

lemma main_outdir_exists:
  "path_exists fs (cmd_outdir cmdargs) \<Longrightarrow>
   main la lp cmdargs fs = (Inl (OutdirExists (cmd_outdir cmdargs)), fs)"
  by (simp add: main_def)

lemma makedirs_error: "makedirs_exist_ok fs name = Inl e \<Longrightarrow> \<not> is_check_error e"
  by (auto simp: makedirs_exist_ok_def split: if_splits option.splits node.splits)

lemma mkdir_error: "mkdir fs p = Inl e \<Longrightarrow> \<not> is_check_error e"
  by (auto simp: mkdir_def split: if_splits)

lemma mkdir_each_error:
  "mkdir_each outdir subdirs fs = (Inl e, fs') \<Longrightarrow> \<not> is_check_error e"
proof (induction subdirs arbitrary: fs)
  case Nil
  then show ?case by simp
next
  case (Cons subdir subdirs)
  then show ?case
    by (auto simp: Let_def split: sum.splits dest: mkdir_error)
qed

lemma prepare_outdir_error:
  "prepare_outdir outdir split_dict fs = (Inl e, fs') \<Longrightarrow> \<not> is_check_error e"
  by (auto simp: prepare_outdir_def split: sum.splits dest: makedirs_error mkdir_each_error)

lemma shutil_copy_error: "shutil_copy fs src dst = Inl e \<Longrightarrow> \<not> is_check_error e"
  by (auto simp: shutil_copy_def Let_def split: if_splits option.splits node.splits)

lemma CopyWorker_error:
  "CopyWorker root_src root_dst fs file_index = Inl e \<Longrightarrow> \<not> is_check_error e"
  by (auto simp: CopyWorker_def Let_def split: prod.splits dest: shutil_copy_error)

lemma pool_imap_error:
  assumes "\<And>fs f e. worker fs f = Inl e \<Longrightarrow> \<not> is_check_error e"
  shows "pool_imap worker files fs = (Inl e, fs') \<Longrightarrow> \<not> is_check_error e"
proof (induction files arbitrary: fs)
  case Nil
  then show ?case by simp
next
  case (Cons f files)
  then show ?case
    by (auto split: sum.splits dest: assms)
qed

lemma split_images_error:
  "split_images path_celeba outdir split_dict workers fs = (Inl e, fs') \<Longrightarrow>
   \<not> is_check_error e"
proof (induction split_dict arbitrary: fs)
  case Nil
  then show ?case by simp
next
  case (Cons b rest)
  obtain subdir files where b: "b = (subdir, files)" by (cases b)
  show ?case
  proof (cases "workers < 1")
    case True
    with Cons.prems show ?thesis by (auto simp: b)
  next
    case False
    obtain r fs1 where
      1: "pool_imap (CopyWorker path_celeba (path_join outdir subdir)) files fs = (r, fs1)"
      by (cases "pool_imap (CopyWorker path_celeba (path_join outdir subdir)) files fs")
    show ?thesis
    proof (cases r)
      case (Inl e1)
      with Cons.prems False 1 have "e = e1" by (simp add: b)
      moreover have "\<not> is_check_error e1"
        by (rule pool_imap_error[OF _ 1[unfolded Inl]]) (rule CopyWorker_error)
      ultimately show ?thesis by simp
    next
      case (Inr u)
      with Cons.prems False 1
      have "split_images path_celeba outdir rest workers fs1 = (Inl e, fs')"
        by (simp add: b)
      then show ?thesis by (rule Cons.IH)
    qed
  qed
qed

text \<open>
  The three ways a run ends: refused because the output directory exists; stopped by the
  loader or by a check, with the file system as it was; or past all checks, in the
  creation of the output tree or in the copy.
\<close>

lemma main_stages:
  assumes "main la lp cmdargs fs = (r, fs')"
  shows "(r = Inl (OutdirExists (cmd_outdir cmdargs)) \<and> fs' = fs
            \<and> path_exists fs (cmd_outdir cmdargs))
       \<or> (\<not> path_exists fs (cmd_outdir cmdargs) \<and> fs' = fs \<and>
           (\<exists>e. r = Inl e \<and>
             (load_celeba_specs la lp (cmd_path_attr cmdargs) (cmd_path_part cmdargs) = Inl e
              \<or> (\<exists>sp. load_celeba_specs la lp (cmd_path_attr cmdargs) (cmd_path_part cmdargs) = Inr sp
                  \<and> (validate_attr sp (cmd_attr cmdargs) = Inl e
                     \<or> collect_celeba_images fs (cmd_path_celeba cmdargs) = Inl e
                     \<or> (\<exists>images. collect_celeba_images fs (cmd_path_celeba cmdargs) = Inr images
                          \<and> (validate_images images sp = Inl e
                             \<or> prepare_image_split sp (cmd_attr cmdargs) (cmd_separate_val cmdargs) = Inl e
                             \<or> (\<exists>d. prepare_image_split sp (cmd_attr cmdargs) (cmd_separate_val cmdargs) = Inr d
                                  \<and> validate_image_split sp d = Inl e))))))))
       \<or> (\<not> path_exists fs (cmd_outdir cmdargs) \<and>
           (\<exists>sp images d.
              load_celeba_specs la lp (cmd_path_attr cmdargs) (cmd_path_part cmdargs) = Inr sp
            \<and> validate_attr sp (cmd_attr cmdargs) = Inr ()
            \<and> collect_celeba_images fs (cmd_path_celeba cmdargs) = Inr images
            \<and> validate_images images sp = Inr ()
            \<and> prepare_image_split sp (cmd_attr cmdargs) (cmd_separate_val cmdargs) = Inr d
            \<and> validate_image_split sp d = Inr ()
            \<and> ((\<exists>e. prepare_outdir (cmd_outdir cmdargs) d fs = (Inl e, fs') \<and> r = Inl e)
               \<or> (\<exists>fs1. prepare_outdir (cmd_outdir cmdargs) d fs = (Inr (), fs1)
                    \<and> split_images (cmd_path_celeba cmdargs) (cmd_outdir cmdargs) d
                         (cmd_workers cmdargs) fs1 = (r, fs')))))"
proof (cases "path_exists fs (cmd_outdir cmdargs)")
  case True
  with assms show ?thesis by (simp add: main_def)
next
  case ne: False
  show ?thesis
  proof (cases "load_celeba_specs la lp (cmd_path_attr cmdargs) (cmd_path_part cmdargs)")
    case (Inl e)
    from assms have "r = Inl e" "fs' = fs" by (auto simp: main_def ne Inl)
    with ne Inl show ?thesis by blast
  next
    case ld: (Inr sp)
    show ?thesis
    proof (cases "validate_attr sp (cmd_attr cmdargs)")
      case (Inl e)
      from assms have "r = Inl e" "fs' = fs" by (auto simp: main_def ne ld Inl)
      with ne ld Inl show ?thesis by blast
    next
      case (Inr u)
      then have va: "validate_attr sp (cmd_attr cmdargs) = Inr ()" by simp
      show ?thesis
      proof (cases "collect_celeba_images fs (cmd_path_celeba cmdargs)")
        case (Inl e)
        from assms have "r = Inl e" "fs' = fs" by (auto simp: main_def ne ld va Inl)
        with ne ld va Inl show ?thesis by blast
      next
        case im: (Inr images)
        show ?thesis
        proof (cases "validate_images images sp")
          case (Inl e)
          from assms have "r = Inl e" "fs' = fs" by (auto simp: main_def ne ld va im Inl)
          with ne ld va im Inl show ?thesis by blast
        next
          case (Inr u')
          then have vi: "validate_images images sp = Inr ()" by simp
          show ?thesis
          proof (cases "prepare_image_split sp (cmd_attr cmdargs) (cmd_separate_val cmdargs)")
            case (Inl e)
            from assms have "r = Inl e" "fs' = fs"
              by (auto simp: main_def ne ld va im vi Inl)
            with ne ld va im vi Inl show ?thesis by blast
          next
            case sd: (Inr d)
            show ?thesis
            proof (cases "validate_image_split sp d")
              case (Inl e)
              from assms have "r = Inl e" "fs' = fs"
                by (auto simp: main_def ne ld va im vi sd Inl)
              with ne ld va im vi sd Inl show ?thesis by blast
            next
              case (Inr u'')
              then have vs: "validate_image_split sp d = Inr ()" by simp
              obtain r0 fs1 where po: "prepare_outdir (cmd_outdir cmdargs) d fs = (r0, fs1)"
                by (cases "prepare_outdir (cmd_outdir cmdargs) d fs")
              show ?thesis
              proof (cases r0)
                case (Inl e)
                from assms have "r = Inl e" "fs' = fs1"
                  by (auto simp: main_def ne ld va im vi sd vs po Inl)
                with ne ld va im vi sd vs po Inl show ?thesis by blast
              next
                case (Inr u3)
                then have r0: "r0 = Inr ()" by simp
                from assms have "split_images (cmd_path_celeba cmdargs) (cmd_outdir cmdargs) d
                         (cmd_workers cmdargs) fs1 = (r, fs')"
                  by (simp add: main_def ne ld va im vi sd vs po r0)
                with ne ld va im vi sd vs po r0 show ?thesis by blast
              qed
            qed
          qed
        qed
      qed
    qed
  qed
qed

text \<open>
  C3. A run whose output directory exists fails with the already-exists error and leaves
  the file system as it was; the test is the first statement of
  \<^verbatim>\<open>main\<close>, so \<^verbatim>\<open>prepare_outdir\<close> is reached only when the directory
  is absent. A run that succeeds started without the output directory and ends with it,
  so a second run with the same arguments fails with the already-exists error and
  changes nothing.
\<close>

theorem rerun_refused:
  "(path_exists fs (cmd_outdir cmdargs) \<longrightarrow>
      main la lp cmdargs fs = (Inl (OutdirExists (cmd_outdir cmdargs)), fs))
   \<and> (main la lp cmdargs fs = (Inr (), fs') \<longrightarrow>
        \<not> path_exists fs (cmd_outdir cmdargs)
        \<and> path_exists fs' (cmd_outdir cmdargs)
        \<and> main la lp cmdargs fs' = (Inl (OutdirExists (cmd_outdir cmdargs)), fs'))"
proof (intro conjI impI)
  assume "path_exists fs (cmd_outdir cmdargs)"
  then show "main la lp cmdargs fs = (Inl (OutdirExists (cmd_outdir cmdargs)), fs)"
    by (rule main_outdir_exists)
next
  assume run: "main la lp cmdargs fs = (Inr (), fs')"
  from main_stages[OF run] obtain d fs1 where
    ne: "\<not> path_exists fs (cmd_outdir cmdargs)"
    and po: "prepare_outdir (cmd_outdir cmdargs) d fs = (Inr (), fs1)"
    and si: "split_images (cmd_path_celeba cmdargs) (cmd_outdir cmdargs) d
               (cmd_workers cmdargs) fs1 = (Inr (), fs')"
    by auto
  from po have "path_exists fs1 (cmd_outdir cmdargs)" by (rule prepare_outdir_exists)
  with si have ex: "path_exists fs' (cmd_outdir cmdargs)" by (rule split_images_mono)
  from ne show "\<not> path_exists fs (cmd_outdir cmdargs)" .
  from ex show "path_exists fs' (cmd_outdir cmdargs)" .
  from ex show "main la lp cmdargs fs' = (Inl (OutdirExists (cmd_outdir cmdargs)), fs')"
    by (rule main_outdir_exists)
qed

lemma example_run:
  "main read_example_attrs read_example_part example_args example_fs
     = (Inr (), example_fs_after)"
  by code_simp

theorem rerun_refused_witness:
  "main read_example_attrs read_example_part example_args example_fs
     = (Inr (), example_fs_after)
   \<and> main read_example_attrs read_example_part example_args example_fs_after
     = (Inl (OutdirExists ''out''), example_fs_after)"
  using rerun_refused[of example_fs example_args read_example_attrs read_example_part
      example_fs_after] example_run
  by (simp add: example_args_def)

text \<open>
  C9. In a run of \<^verbatim>\<open>main\<close>, an error of the precondition or data-integrity
  kinds leaves the file system unchanged; and a run that ends without error, or that
  changes the file system at all, has passed every check before: the output directory
  was absent, the attribute valid, the images and the split counts validated.
\<close>

theorem checks_before_writes:
  assumes "main la lp cmdargs fs = (r, fs')"
  shows "(\<forall>e. r = Inl e \<and> is_check_error e \<longrightarrow> fs' = fs)
     \<and> (r = Inr () \<or> fs' \<noteq> fs \<longrightarrow>
          \<not> path_exists fs (cmd_outdir cmdargs)
          \<and> (\<exists>sp images d.
                load_celeba_specs la lp (cmd_path_attr cmdargs) (cmd_path_part cmdargs) = Inr sp
              \<and> validate_attr sp (cmd_attr cmdargs) = Inr ()
              \<and> collect_celeba_images fs (cmd_path_celeba cmdargs) = Inr images
              \<and> validate_images images sp = Inr ()
              \<and> prepare_image_split sp (cmd_attr cmdargs) (cmd_separate_val cmdargs) = Inr d
              \<and> validate_image_split sp d = Inr ()))"
proof -
  have a: "fs' = fs" if "r = Inl e" "is_check_error e" for e
    using main_stages[OF assms] that
    by (auto dest: prepare_outdir_error split_images_error)
  have b: "\<not> path_exists fs (cmd_outdir cmdargs)
          \<and> (\<exists>sp images d.
                load_celeba_specs la lp (cmd_path_attr cmdargs) (cmd_path_part cmdargs) = Inr sp
              \<and> validate_attr sp (cmd_attr cmdargs) = Inr ()
              \<and> collect_celeba_images fs (cmd_path_celeba cmdargs) = Inr images
              \<and> validate_images images sp = Inr ()
              \<and> prepare_image_split sp (cmd_attr cmdargs) (cmd_separate_val cmdargs) = Inr d
              \<and> validate_image_split sp d = Inr ())"
    if "r = Inr () \<or> fs' \<noteq> fs"
    using main_stages[OF assms] that by auto
  from a b show ?thesis by blast
qed

lemma one_image_run:
  "main read_example_attrs read_example_part example_args one_image_fs
     = (Inl (CountMismatch 1 2), one_image_fs)"
  by code_simp

theorem checks_before_writes_witness:
  "main read_example_attrs read_example_part example_args one_image_fs
     = (Inl (CountMismatch 1 2), one_image_fs)
   \<and> is_check_error (CountMismatch 1 2)
   \<and> \<not> path_exists example_fs (cmd_outdir example_args)"
proof -
  from checks_before_writes[OF example_run]
  have "\<not> path_exists example_fs (cmd_outdir example_args)" by simp
  moreover from checks_before_writes[OF one_image_run]
  have "snd (main read_example_attrs read_example_part example_args one_image_fs) = one_image_fs"
    by (simp add: one_image_run)
  ultimately show ?thesis
    using one_image_run by simp
qed

end
